theory Spec2Isabelle
  imports Main
begin

section \<open>Values shared by the services\<close>

subsection \<open>Errors\<close>

text \<open>
  A Go \<^verbatim>\<open>error\<close> is either an error handed back by a collaborator (the search engine,
  the object store, the file system, the JSON decoder) or one built with
  \<^verbatim>\<open>fmt.Errorf("<msg>: %w", err)\<close>, which wraps an error under a message. A run-time
  panic (integer division by zero) ends the handler and is kept as a value of its own.
\<close>

datatype error = Err string | Wrap string error | Panic string

subsection \<open>Formatting integers\<close>

text \<open>The verb \<^verbatim>\<open>%d\<close> of \<^verbatim>\<open>fmt.Sprintf\<close>: decimal digits, a minus sign for a negative value.\<close>

definition digit_char :: "nat \<Rightarrow> char" where
  "digit_char n = ''0123456789'' ! (n mod 10)"

fun digits10 :: "nat \<Rightarrow> string" where
  "digits10 n = (if n < 10 then [digit_char n] else digits10 (n div 10) @ [digit_char n])"

declare digits10.simps [simp del]

definition itoa :: "int \<Rightarrow> string" where
  "itoa i = (if i < 0 then ''-'' @ digits10 (nat (- i)) else digits10 (nat i))"

subsection \<open>Paths\<close>

text \<open>
  \<^verbatim>\<open>filepath.Join\<close> of two elements: an empty element is ignored, the others are joined by a
  slash. (Go cleans the result as well; every element joined by the services is already clean
  unless an index name holds a slash or is a dot path.) \<^verbatim>\<open>filepath.Base\<close> is the part behind
  the last slash, \<^verbatim>\<open>filepath.Ext\<close> the suffix that starts at the last dot of that part.
\<close>

definition filepath_Join :: "string \<Rightarrow> string \<Rightarrow> string" where
  "filepath_Join dir name =
     (if dir = [] then name else if name = [] then dir else dir @ ''/'' @ name)"

definition filepath_Base :: "string \<Rightarrow> string" where
  "filepath_Base p = rev (takeWhile (\<lambda>c. c \<noteq> CHR ''/'') (rev p))"

fun ext_scan :: "string \<Rightarrow> string \<Rightarrow> string" where
  "ext_scan [] acc = []"
| "ext_scan (c # cs) acc =
     (if c = CHR ''/'' then [] else if c = CHR ''.'' then c # acc else ext_scan cs (c # acc))"

definition filepath_Ext :: "string \<Rightarrow> string" where
  "filepath_Ext p = ext_scan (rev p) []"

subsection \<open>Dates and instants\<close>

text \<open>
  A calendar date as \<^verbatim>\<open>Year()\<close>, \<^verbatim>\<open>Month()\<close>, \<^verbatim>\<open>Day()\<close> report it. An instant built by
  \<^verbatim>\<open>time.Date(y, m, d, hour, min, sec, nsec, time.UTC)\<close> is kept as that date and the signed
  offset from its midnight in nanoseconds; UTC has no clock changes, so \<^verbatim>\<open>Add\<close> is addition on
  the offset.
\<close>

record date =
  Year :: int
  Month :: int
  Day :: int

record instant =
  on_date :: date
  ns_of_day :: int

definition Millisecond :: int where "Millisecond = 1000000"
definition Second :: int where "Second = 1000 * Millisecond"

definition time_Date :: "date \<Rightarrow> int \<Rightarrow> int \<Rightarrow> int \<Rightarrow> int \<Rightarrow> instant" where
  "time_Date d hour mi sec nsec =
     \<lparr>on_date = d, ns_of_day = ((hour * 60 + mi) * 60 + sec) * Second + nsec\<rparr>"

definition time_Add :: "instant \<Rightarrow> int \<Rightarrow> instant" where
  "time_Add t dur = t\<lparr>ns_of_day := ns_of_day t + dur\<rparr>"

text \<open>The leap-year rule and the month lengths of the Gregorian calendar.\<close>

definition is_leap :: "int \<Rightarrow> bool" where
  "is_leap y \<longleftrightarrow> y mod 4 = 0 \<and> (y mod 100 \<noteq> 0 \<or> y mod 400 = 0)"

definition days_in :: "int \<Rightarrow> int \<Rightarrow> int" where
  "days_in y m =
     (if m = 2 then (if is_leap y then 29 else 28)
      else if m = 4 \<or> m = 6 \<or> m = 9 \<or> m = 11 then 30 else 31)"

definition valid_date :: "date \<Rightarrow> bool" where
  "valid_date d \<longleftrightarrow> 1 \<le> Month d \<and> Month d \<le> 12 \<and> 1 \<le> Day d \<and> Day d \<le> days_in (Year d) (Month d)"

text \<open>
  \<^verbatim>\<open>t.AddDate(0, 0, -1)\<close> is \<^verbatim>\<open>Date(year, month, day - 1, ...)\<close> normalised: day 0 of a month is
  the last day of the month before, and month 0 is December of the year before.
\<close>

definition AddDate_minus_one_day :: "date \<Rightarrow> date" where
  "AddDate_minus_one_day d =
     (if 1 < Day d then d\<lparr>Day := Day d - 1\<rparr>
      else if 1 < Month d then d\<lparr>Month := Month d - 1, Day := days_in (Year d) (Month d - 1)\<rparr>
      else \<lparr>Year = Year d - 1, Month = 12, Day = 31\<rparr>)"

text \<open>The layout \<^verbatim>\<open>"01-02-06"\<close>: two-digit month, two-digit day, two-digit year.\<close>

definition pad2 :: "int \<Rightarrow> string" where
  "pad2 n = [digit_char (nat (n div 10)), digit_char (nat n)]"

definition Format_010206 :: "date \<Rightarrow> string" where
  "Format_010206 d = pad2 (Month d) @ ''-'' @ pad2 (Day d) @ ''-'' @ pad2 (Year d mod 100)"

text \<open>Days since 1 January of year 1, to count calendar days.\<close>

definition days_before_month :: "int \<Rightarrow> int \<Rightarrow> int" where
  "days_before_month y m = (\<Sum>k = 1..<nat m. days_in y (int k))"

definition day_number :: "date \<Rightarrow> int" where
  "day_number d =
     (let y = Year d - 1 in 365 * y + y div 4 - y div 100 + y div 400)
     + days_before_month (Year d) (Month d) + Day d"

section \<open>Configuration (package config)\<close>

record CleanupJob =
  c_IndexName :: string
  RetentionDays :: int
  c_Schedule :: string

record BackupJob =
  IndexName :: string
  Schedule :: string
  IntervalHours :: int
  S3Path :: string
  RequestInterval :: int

section \<open>The collaborators and the run state\<close>

text \<open>
  What the search engine, the object store, the JSON codec, gzip and the file system answer
  is not decided by the program. A \<open>world\<close> fixes those answers, so that a run is a function
  of the world, the job and the files on disk. \<open>fault\<close> says which file operation fails, and
  with which error.
\<close>

datatype io_op =
    OpCreate string
  | OpOpen string
  | OpStat string
  | OpCopy string
  | OpEncode string
  | OpGzipWrite string
  | OpGzipClose string

record world =
  now :: date
  count_result :: "string \<Rightarrow> instant \<Rightarrow> instant \<Rightarrow> error + int"
  search_result :: "string \<Rightarrow> instant \<Rightarrow> instant \<Rightarrow> int \<Rightarrow> error + string"
  decode_hits :: "string \<Rightarrow> error + nat"
  gzip :: "string \<Rightarrow> string \<Rightarrow> string"
  put_result :: "nat \<Rightarrow> error option"
  delete_result :: "string \<Rightarrow> string \<Rightarrow> error + int"
  fault :: "io_op \<Rightarrow> error option"

text \<open>
  The requests a run sends and the pauses it makes, in order. \<open>Sleep\<close> carries a
  \<^verbatim>\<open>time.Duration\<close> in nanoseconds.
\<close>

datatype event =
    CountReq string instant instant
  | SearchReq string instant instant int
  | DeleteByQueryReq string string
  | PutObject string string string nat string
  | Sleep int

record state =
  files :: "string \<rightharpoonup> string"
  trace :: "event list"

definition emit :: "event \<Rightarrow> state \<Rightarrow> state" where
  "emit e s = s\<lparr>trace := trace s @ [e]\<rparr>"

text \<open>\<^verbatim>\<open>time.Duration\<close> is a signed 64-bit integer; a product wraps around.\<close>

definition wrap64 :: "int \<Rightarrow> int" where
  "wrap64 x = (x + 2 ^ 63) mod 2 ^ 64 - 2 ^ 63"

text \<open>
  \<^verbatim>\<open>os.Create\<close> makes the file or truncates it; \<^verbatim>\<open>os.Open\<close> and \<^verbatim>\<open>os.Stat\<close> need the
  file to be there; \<^verbatim>\<open>os.Remove\<close> is called with its error ignored.
\<close>

definition os_Create :: "world \<Rightarrow> string \<Rightarrow> state \<Rightarrow> state \<times> error option" where
  "os_Create w name s =
     (case fault w (OpCreate name) of
        Some e \<Rightarrow> (s, Some e)
      | None \<Rightarrow> (s\<lparr>files := (files s)(name \<mapsto> [])\<rparr>, None))"

definition os_Open :: "world \<Rightarrow> string \<Rightarrow> state \<Rightarrow> error + string" where
  "os_Open w name s =
     (case fault w (OpOpen name) of
        Some e \<Rightarrow> Inl e
      | None \<Rightarrow> (case files s name of
                  None \<Rightarrow> Inl (Err (''open '' @ name @ '': no such file or directory''))
                | Some content \<Rightarrow> Inr content))"

definition os_Stat :: "world \<Rightarrow> string \<Rightarrow> state \<Rightarrow> error + nat" where
  "os_Stat w name s =
     (case fault w (OpStat name) of
        Some e \<Rightarrow> Inl e
      | None \<Rightarrow> (case files s name of
                  None \<Rightarrow> Inl (Err (''stat '' @ name @ '': no such file or directory''))
                | Some content \<Rightarrow> Inr (length content)))"

definition os_Remove :: "string \<Rightarrow> state \<Rightarrow> state" where
  "os_Remove name s = s\<lparr>files := (files s)(name := None)\<rparr>"

definition append_file :: "string \<Rightarrow> string \<Rightarrow> state \<Rightarrow> state" where
  "append_file name bytes s =
     s\<lparr>files := (files s)(name \<mapsto> (case files s name of None \<Rightarrow> [] | Some old \<Rightarrow> old) @ bytes)\<rparr>"

section \<open>The backup service (internal/backup/backup.go)\<close>

definition workDir :: string where
  "workDir = ''/tmp/opensearch-backups''"

subsection \<open>getCount and searchAndSave\<close>

definition getCount ::
  "world \<Rightarrow> string \<Rightarrow> instant \<Rightarrow> instant \<Rightarrow> state \<Rightarrow> state \<times> (error + int)" where
  "getCount w indexName startTime endTime s =
     (emit (CountReq indexName startTime endTime) s,
      case count_result w indexName startTime endTime of
        Inl err \<Rightarrow> Inl err
      | Inr count \<Rightarrow> Inr count)"

text \<open>
  The response of the search is written by one \<^verbatim>\<open>Encode\<close>; when that fails the file made by
  \<^verbatim>\<open>os.Create\<close> stays behind.
\<close>

definition searchAndSave ::
  "world \<Rightarrow> string \<Rightarrow> instant \<Rightarrow> instant \<Rightarrow> int \<Rightarrow> string \<Rightarrow> state \<Rightarrow> state \<times> error option" where
  "searchAndSave w indexName startTime endTime sz filename s =
     (let s1 = emit (SearchReq indexName startTime endTime sz) s in
      case search_result w indexName startTime endTime sz of
        Inl err \<Rightarrow> (s1, Some err)
      | Inr resp \<Rightarrow>
          (case os_Create w filename s1 of
             (s2, Some err) \<Rightarrow> (s2, Some err)
           | (s2, None) \<Rightarrow>
               (case fault w (OpEncode filename) of
                  Some err \<Rightarrow> (s2, Some (Wrap ''failed to encode response'' err))
                | None \<Rightarrow> (append_file filename resp s2, None))))"

subsection \<open>downloadPeriod\<close>

definition period_bounds :: "date \<Rightarrow> int \<Rightarrow> int \<Rightarrow> instant \<times> instant" where
  "period_bounds d startHour endHour =
     (let startTime = time_Date d startHour 0 0 0;
          endTime = (if endHour \<ge> 24 then time_Date d 23 59 59 999000000
                     else time_Add (time_Date d endHour 0 0 0) (- Millisecond))
      in (startTime, endTime))"

definition period_filename :: "date \<Rightarrow> string \<Rightarrow> int \<Rightarrow> string" where
  "period_filename d indexName fileNum =
     filepath_Join workDir (Format_010206 d @ ''-'' @ indexName @ ''-'' @ itoa fileNum @ ''.json'')"

text \<open>The empty file name with no error is the answer for a period without documents.\<close>

definition downloadPeriod ::
  "world \<Rightarrow> BackupJob \<Rightarrow> date \<Rightarrow> int \<Rightarrow> int \<Rightarrow> int \<Rightarrow> state \<Rightarrow> state \<times> (error + string)" where
  "downloadPeriod w job d startHour endHour fileNum s =
     (case period_bounds d startHour endHour of
        (startTime, endTime) \<Rightarrow>
          (case getCount w (IndexName job) startTime endTime s of
             (s1, Inl err) \<Rightarrow> (s1, Inl (Wrap ''failed to get count'' err))
           | (s1, Inr count) \<Rightarrow>
               if count = 0 then (s1, Inr [])
               else
                 (let filename = period_filename d (IndexName job) fileNum in
                  case searchAndSave w (IndexName job) startTime endTime count filename s1 of
                    (s2, Some err) \<Rightarrow> (s2, Inl (Wrap ''failed to search and save'' err))
                  | (s2, None) \<Rightarrow> (s2, Inr filename))))"

subsection \<open>mergeFiles\<close>

definition merged_filename :: "date \<Rightarrow> string \<Rightarrow> string" where
  "merged_filename d indexName =
     filepath_Join workDir (Format_010206 d @ ''-'' @ indexName @ ''.json'')"

text \<open>
  The loop over the files: open, decode to count \<^verbatim>\<open>len(hits.hits)\<close>, rewind, copy the whole
  file behind what the merged file holds. The copy is from one file to another one; the
  services never merge a file into itself.
\<close>

fun merge_loop ::
  "world \<Rightarrow> string \<Rightarrow> string list \<Rightarrow> int \<Rightarrow> state \<Rightarrow> state \<times> (error + int)" where
  "merge_loop w merged [] totalCount s = (s, Inr totalCount)"
| "merge_loop w merged (filename # rest) totalCount s =
     (case os_Open w filename s of
        Inl err \<Rightarrow> (s, Inl err)
      | Inr content \<Rightarrow>
          (case decode_hits w content of
             Inl err \<Rightarrow> (s, Inl (Wrap (''failed to decode JSON from '' @ filename) err))
           | Inr n \<Rightarrow>
               (case fault w (OpCopy filename) of
                  Some err \<Rightarrow> (s, Inl err)
                | None \<Rightarrow>
                    merge_loop w merged rest (totalCount + int n) (append_file merged content s))))"

definition mergeFiles ::
  "world \<Rightarrow> string list \<Rightarrow> string \<Rightarrow> date \<Rightarrow> state \<Rightarrow> state \<times> (error + string \<times> int)" where
  "mergeFiles w fs indexName d s =
     (let mergedFilename = merged_filename d indexName in
      case os_Create w mergedFilename s of
        (s1, Some err) \<Rightarrow> (s1, Inl err)
      | (s1, None) \<Rightarrow>
          (case merge_loop w mergedFilename fs 0 s1 of
             (s2, Inl err) \<Rightarrow> (s2, Inl err)
           | (s2, Inr totalCount) \<Rightarrow> (s2, Inr (mergedFilename, totalCount))))"

subsection \<open>compressFile\<close>

definition compressFile :: "world \<Rightarrow> string \<Rightarrow> state \<Rightarrow> state \<times> (error + string)" where
  "compressFile w filename s =
     (let compressedFilename = filename @ ''.gz'' in
      case os_Open w filename s of
        Inl err \<Rightarrow> (s, Inl err)
      | Inr content \<Rightarrow>
          (case os_Create w compressedFilename s of
             (s1, Some err) \<Rightarrow> (s1, Inl err)
           | (s1, None) \<Rightarrow>
               (case fault w (OpGzipWrite filename) of
                  Some err \<Rightarrow> (s1, Inl err)
                | None \<Rightarrow>
                    (case fault w (OpGzipClose filename) of
                       Some err \<Rightarrow> (s1, Inl err)
                     | None \<Rightarrow>
                         (append_file compressedFilename
                            (gzip w (filepath_Base filename) content) s1,
                          Inr compressedFilename)))))"

subsection \<open>cleanup\<close>

text \<open>The third parameter is not used by the body.\<close>

definition cleanup :: "string list \<Rightarrow> string \<Rightarrow> string \<Rightarrow> state \<Rightarrow> state" where
  "cleanup tempFiles mergedFile compressedFile s =
     os_Remove mergedFile (fold os_Remove tempFiles s)"

section \<open>The object store client (package storage)\<close>

record S3Client =
  bucket :: string

definition maxRetries :: nat where "maxRetries = 3"
definition baseDelay :: int where "baseDelay = 2 * Second"

text \<open>
  The retry loop of \<open>Upload\<close>, from attempt \<open>attempt\<close> on. Every attempt opens the file
  again; an attempt is one \<^verbatim>\<open>PutObject\<close> call, whose answer for attempt \<open>n\<close> is
  \<open>put_result w n\<close>.
\<close>

function Upload_loop ::
  "world \<Rightarrow> S3Client \<Rightarrow> string \<Rightarrow> string \<Rightarrow> nat \<Rightarrow> string \<Rightarrow> nat \<Rightarrow> error option \<Rightarrow> state
     \<Rightarrow> state \<times> (error + unit)" where
  "Upload_loop w c filePath key fileSize contentType attempt lastErr s =
     (if attempt \<le> maxRetries then
        (case os_Open w filePath s of
           Inl err \<Rightarrow> (s, Inl (Wrap ''failed to open file'' err))
         | Inr content \<Rightarrow>
             (let s1 = emit (PutObject (bucket c) key content fileSize contentType) s in
              case put_result w attempt of
                None \<Rightarrow> (s1, Inr ())
              | Some err \<Rightarrow>
                  (let s2 = (if attempt < maxRetries
                             then emit (Sleep (wrap64 (baseDelay * int attempt))) s1 else s1)
                   in Upload_loop w c filePath key fileSize contentType (attempt + 1) (Some err) s2)))
      else
        (s, Inl (case lastErr of
                   Some err \<Rightarrow>
                     Wrap (''failed to upload file after '' @ itoa (int maxRetries) @ '' attempts'') err
                 | None \<Rightarrow>
                     Err (''failed to upload file after '' @ itoa (int maxRetries)
                          @ '' attempts: %!w(<nil>)''))))"
  by pat_completeness auto
termination
  by (relation "measure (\<lambda>(w, c, filePath, key, fileSize, contentType, attempt, lastErr, s).
        Suc maxRetries - attempt)") auto

declare Upload_loop.simps [simp del]

definition Upload ::
  "world \<Rightarrow> S3Client \<Rightarrow> string \<Rightarrow> string \<Rightarrow> int \<Rightarrow> state \<Rightarrow> state \<times> (error + unit)" where
  "Upload w c filePath key documentCount s =
     (case os_Stat w filePath s of
        Inl err \<Rightarrow> (s, Inl (Wrap ''failed to stat file'' err))
      | Inr fileSize \<Rightarrow>
          (let contentType = (if filepath_Ext filePath = ''.json''
                              then ''application/json'' else ''application/gzip'')
           in Upload_loop w c filePath key fileSize contentType 1 None s))"

section \<open>A backup run\<close>

text \<open>Go's integer division truncates towards zero.\<close>

definition go_div :: "int \<Rightarrow> int \<Rightarrow> int" where
  "go_div a b = sgn a * sgn b * (\<bar>a\<bar> div \<bar>b\<bar>)"

text \<open>
  The loop over the periods, from index \<open>i\<close> on. A failed period goes on to the next index
  at once, without the pause.
\<close>

function Backup_loop ::
  "world \<Rightarrow> BackupJob \<Rightarrow> date \<Rightarrow> int \<Rightarrow> int \<Rightarrow> string list \<Rightarrow> state \<Rightarrow> string list \<times> state" where
  "Backup_loop w job targetDate periodsCount i allFiles s =
     (if i < periodsCount then
        (let startHour = i * IntervalHours job;
             endHour = startHour + IntervalHours job
         in case downloadPeriod w job targetDate startHour endHour (i + 1) s of
              (s1, Inl err) \<Rightarrow> Backup_loop w job targetDate periodsCount (i + 1) allFiles s1
            | (s1, Inr filename) \<Rightarrow>
                (let allFiles1 = (if filename \<noteq> [] then allFiles @ [filename] else allFiles);
                     s2 = (if i < periodsCount - 1 \<and> RequestInterval job > 0
                           then emit (Sleep (wrap64 (wrap64 (RequestInterval job) * Second))) s1
                           else s1)
                 in Backup_loop w job targetDate periodsCount (i + 1) allFiles1 s2))
      else (allFiles, s))"
  by pat_completeness auto
termination
  by (relation "measure (\<lambda>(w, job, targetDate, periodsCount, i, allFiles, s).
        nat (periodsCount - i))") auto

declare Backup_loop.simps [simp del]

definition Backup :: "world \<Rightarrow> S3Client \<Rightarrow> BackupJob \<Rightarrow> state \<Rightarrow> state \<times> (error + unit)" where
  "Backup w c job s =
     (let targetDate = AddDate_minus_one_day (now w) in
      if IntervalHours job = 0 then (s, Inl (Panic ''integer divide by zero''))
      else
        (let periodsCount = go_div 24 (IntervalHours job) in
         case Backup_loop w job targetDate periodsCount 0 [] s of
           (allFiles, s1) \<Rightarrow>
             if allFiles = [] then (s1, Inr ())
             else
               (case mergeFiles w allFiles (IndexName job) targetDate s1 of
                  (s2, Inl err) \<Rightarrow> (s2, Inl (Wrap ''failed to merge files'' err))
                | (s2, Inr (mergedFile, totalCount)) \<Rightarrow>
                    (case compressFile w mergedFile s2 of
                       (s3, Inl err) \<Rightarrow> (s3, Inl (Wrap ''failed to compress file'' err))
                     | (s3, Inr compressedFile) \<Rightarrow>
                         (let s3Key = filepath_Join (S3Path job) (filepath_Base compressedFile) in
                          case Upload w c compressedFile s3Key totalCount s3 of
                            (s4, Inl err) \<Rightarrow> (s4, Inl (Wrap ''failed to upload to S3'' err))
                          | (s4, Inr u) \<Rightarrow>
                              (cleanup allFiles mergedFile compressedFile s4, Inr ()))))))"

section \<open>The cleanup service (internal/cleanup/cleanup.go)\<close>

definition tab :: char where "tab = CHR 0x09"

definition quoted :: "string \<Rightarrow> string" where
  "quoted x = [CHR 0x22] @ x @ [CHR 0x22]"

text \<open>
  The body of the delete-by-query request, as the raw string literal spells it: a range on
  \<^verbatim>\<open>@timestamp\<close> whose only bound is \<^verbatim>\<open>lte\<close>, the date-math expression
  \<^verbatim>\<open>now-<RetentionDays>d/d\<close>.
\<close>

definition lte_bound :: "int \<Rightarrow> string" where
  "lte_bound retentionDays =
     quoted ''lte'' @ '': '' @ quoted (''now-'' @ itoa retentionDays @ ''d/d'')"

definition delete_body :: "int \<Rightarrow> string" where
  "delete_body retentionDays =
     ''{\<newline>'' @
     replicate 3 tab @ quoted ''query'' @ '': {\<newline>'' @
     replicate 4 tab @ quoted ''range'' @ '': {\<newline>'' @
     replicate 5 tab @ quoted ''@timestamp'' @ '': {\<newline>'' @
     replicate 6 tab @ lte_bound retentionDays @ ''\<newline>'' @
     replicate 5 tab @ ''}\<newline>'' @
     replicate 4 tab @ ''}\<newline>'' @
     replicate 3 tab @ ''}\<newline>'' @
     replicate 2 tab @ ''}''"

definition Cleanup :: "world \<Rightarrow> CleanupJob \<Rightarrow> state \<Rightarrow> state \<times> (error + unit)" where
  "Cleanup w job s =
     (let body = delete_body (RetentionDays job);
          s1 = emit (DeleteByQueryReq (c_IndexName job) body) s
      in case delete_result w (c_IndexName job) body of
           Inl err \<Rightarrow> (s1, Inl (Wrap ''delete by query failed'' err))
         | Inr deleted \<Rightarrow> (s1, Inr ()))"

section \<open>The scheduler (cmd/manager: func main)\<close>

text \<open>
  \<open>main\<close> walks the cleanup jobs and then the backup jobs. For each job it allocates a new
  \<^verbatim>\<open>sync.Mutex\<close>, stores the pointer in a map under the index name and hands the same
  pointer to the closure it registers with cron. A mutex is an address here; the heap of
  mutexes says which are held.
\<close>

datatype job_kind = CleanupKind | BackupKind

record handler =
  h_kind :: job_kind
  h_index :: string
  h_mutex :: nat

fun register_jobs ::
  "job_kind \<Rightarrow> string list \<Rightarrow> nat \<Rightarrow> (string \<rightharpoonup> nat) \<Rightarrow> handler list \<times> nat \<times> (string \<rightharpoonup> nat)" where
  "register_jobs k [] next mutexes = ([], next, mutexes)"
| "register_jobs k (name # rest) next mutexes =
     (let mutexes1 = mutexes(name \<mapsto> next);
          mutex = (case mutexes1 name of Some a \<Rightarrow> a | None \<Rightarrow> next)
      in case register_jobs k rest (Suc next) mutexes1 of
           (hs, next1, mutexes2) \<Rightarrow>
             (\<lparr>h_kind = k, h_index = name, h_mutex = mutex\<rparr> # hs, next1, mutexes2))"

definition registry :: "CleanupJob list \<Rightarrow> BackupJob list \<Rightarrow> handler list" where
  "registry cleanupJobs backupJobs =
     (case register_jobs CleanupKind (map c_IndexName cleanupJobs) 0 Map.empty of
        (hs1, next1, cleanupMutexes) \<Rightarrow>
          (case register_jobs BackupKind (map IndexName backupJobs) next1 Map.empty of
             (hs2, next2, backupMutexes) \<Rightarrow> hs1 @ hs2))"

text \<open>
  Cron starts a goroutine for every firing. The closure first calls \<^verbatim>\<open>TryLock\<close>, which is
  atomic: when the mutex is held the closure logs and returns; otherwise it holds the mutex,
  runs the service and releases the mutex when the service returns (\<^verbatim>\<open>defer\<close>). The
  scheduler state keeps the held mutexes, the handlers whose service call is under way, and a
  journal of what each firing did; the requests and files of a run lie between its
  \<open>Started\<close> and its \<open>Finished\<close>.
\<close>

datatype firing = Started handler | Skipped handler | Finished handler

record sched =
  locked :: "nat \<Rightarrow> bool"
  running :: "handler list"
  journal :: "firing list"

definition sched_init :: sched where
  "sched_init = \<lparr>locked = (\<lambda>a. False), running = [], journal = []\<rparr>"

definition fire :: "handler \<Rightarrow> sched \<Rightarrow> sched" where
  "fire h s =
     (if locked s (h_mutex h) then s\<lparr>journal := journal s @ [Skipped h]\<rparr>
      else s\<lparr>locked := (locked s)(h_mutex h := True),
             running := h # running s,
             journal := journal s @ [Started h]\<rparr>)"

definition finish :: "handler \<Rightarrow> sched \<Rightarrow> sched" where
  "finish h s =
     (if h \<in> set (running s)
      then s\<lparr>locked := (locked s)(h_mutex h := False),
             running := remove1 h (running s),
             journal := journal s @ [Finished h]\<rparr>
      else s)"

text \<open>
  What can happen next: a registered handler fires, or a service call under way returns.
\<close>

datatype tick = Fire handler | Return handler

fun tick_step :: "handler list \<Rightarrow> sched \<Rightarrow> tick \<Rightarrow> sched" where
  "tick_step reg s (Fire h) = (if h \<in> set reg then fire h s else s)"
| "tick_step reg s (Return h) = finish h s"

definition run_ticks :: "handler list \<Rightarrow> tick list \<Rightarrow> sched" where
  "run_ticks reg ticks = foldl (tick_step reg) sched_init ticks"

section \<open>Reading a run\<close>

text \<open>The time windows of the count requests in a trace, and its uploads, in order.\<close>

fun probed :: "event list \<Rightarrow> (instant \<times> instant) list" where
  "probed [] = []"
| "probed (CountReq indexName a b # es) = (a, b) # probed es"
| "probed (e # es) = probed es"

fun uploads :: "event list \<Rightarrow> event list" where
  "uploads [] = []"
| "uploads (PutObject b k content n t # es) = PutObject b k content n t # uploads es"
| "uploads (e # es) = uploads es"

text \<open>The windows a backup run asks the index about, in the order of its count requests.\<close>

definition periods_of_run ::
  "world \<Rightarrow> S3Client \<Rightarrow> BackupJob \<Rightarrow> (string \<rightharpoonup> string) \<Rightarrow> (instant \<times> instant) list" where
  "periods_of_run w c job disk = probed (trace (fst (Backup w c job \<lparr>files = disk, trace = []\<rparr>)))"

text \<open>
  What period \<open>i\<close> of a run hands back (it does not depend on the files on disk), and the
  file it adds to \<^verbatim>\<open>allFiles\<close>.
\<close>

definition period_outcome :: "world \<Rightarrow> BackupJob \<Rightarrow> date \<Rightarrow> int \<Rightarrow> error + string" where
  "period_outcome w job d i =
     snd (downloadPeriod w job d (i * IntervalHours job)
            (i * IntervalHours job + IntervalHours job) (i + 1) \<lparr>files = Map.empty, trace = []\<rparr>)"

definition kept_file :: "error + string \<Rightarrow> string list" where
  "kept_file r = (case r of Inl err \<Rightarrow> [] | Inr filename \<Rightarrow> if filename = [] then [] else [filename])"

text \<open>The last instant of a day, 23:59:59.999, as an offset from midnight.\<close>

definition end_of_day :: int where
  "end_of_day = 86399999 * Millisecond"

section \<open>Sample worlds\<close>

text \<open>
  On 1 March 2024 the index holds two documents, both in the first hours of 29 February;
  nothing fails.
\<close>

definition sample_world :: world where
  "sample_world =
     \<lparr>now = \<lparr>Year = 2024, Month = 3, Day = 1\<rparr>,
      count_result = (\<lambda>indexName a b. Inr (if ns_of_day a = 0 then 2 else 0)),
      search_result = (\<lambda>indexName a b n. Inr ''{}''),
      decode_hits = (\<lambda>content. Inr 2),
      gzip = (\<lambda>name content. content),
      put_result = (\<lambda>n. None),
      delete_result = (\<lambda>indexName body. Inr 0),
      fault = (\<lambda>operation. None)\<rparr>"

definition sample_client :: S3Client where
  "sample_client = \<lparr>bucket = ''backups''\<rparr>"

definition sample_job :: BackupJob where
  "sample_job =
     \<lparr>IndexName = ''logs'', Schedule = ''0 6 * * *'', IntervalHours = 24, S3Path = ''logs'',
      RequestInterval = 0\<rparr>"

definition empty_state :: state where
  "empty_state = \<lparr>files = Map.empty, trace = []\<rparr>"

text \<open>The same index, but the count request for the window that starts at midnight fails.\<close>

definition flaky_world :: world where
  "flaky_world = sample_world\<lparr>count_result :=
      (\<lambda>indexName a b. if ns_of_day a = 0 then Inl (Err ''timeout'') else Inr 2)\<rparr>"

section \<open>Properties\<close>

subsection \<open>The state under its operations\<close>

lemma files_emit [simp]: "files (emit e s) = files s"
  by (simp add: emit_def)

lemma trace_emit [simp]: "trace (emit e s) = trace s @ [e]"
  by (simp add: emit_def)

lemma os_Open_emit [simp]: "os_Open w p (emit e s) = os_Open w p s"
  by (simp add: os_Open_def split: option.splits)

lemma itoa_3: "itoa 3 = ''3''"
  by (simp add: itoa_def digits10.simps digit_char_def)

subsection \<open>The upload\<close>

lemma wrap64_delay:
  "wrap64 (baseDelay * 1) = baseDelay * 1" "wrap64 (baseDelay * 2) = baseDelay * 2"
  by (simp_all add: wrap64_def baseDelay_def Second_def Millisecond_def)

lemma Upload_loop_done:
  "Upload_loop w c filePath key fileSize contentType 4 (Some e) s =
     (s, Inl (Wrap ''failed to upload file after 3 attempts'' e))"
  by (simp add: Upload_loop.simps [of _ _ _ _ _ _ 4] maxRetries_def itoa_3)

lemma Upload_loop_open_fails:
  assumes "os_Open w filePath s = Inl err" and "attempt \<le> 3"
  shows "Upload_loop w c filePath key fileSize contentType attempt lastErr s =
     (s, Inl (Wrap ''failed to open file'' err))"
  using assms by (subst Upload_loop.simps) (simp add: maxRetries_def)

lemma Upload_loop_1:
  assumes "os_Open w filePath s = Inr content"
  shows "Upload_loop w c filePath key fileSize contentType 1 lastErr s =
     (case put_result w 1 of
        None \<Rightarrow> (emit (PutObject (bucket c) key content fileSize contentType) s, Inr ())
      | Some err \<Rightarrow>
          Upload_loop w c filePath key fileSize contentType 2 (Some err)
            (emit (Sleep (baseDelay * 1))
               (emit (PutObject (bucket c) key content fileSize contentType) s)))"
  using assms wrap64_delay(1)
  by (subst Upload_loop.simps)
     (simp add: maxRetries_def Let_def numeral_2_eq_2 split: option.splits)

lemma Upload_loop_2:
  assumes "os_Open w filePath s = Inr content"
  shows "Upload_loop w c filePath key fileSize contentType 2 lastErr s =
     (case put_result w 2 of
        None \<Rightarrow> (emit (PutObject (bucket c) key content fileSize contentType) s, Inr ())
      | Some err \<Rightarrow>
          Upload_loop w c filePath key fileSize contentType 3 (Some err)
            (emit (Sleep (baseDelay * 2))
               (emit (PutObject (bucket c) key content fileSize contentType) s)))"
  using assms wrap64_delay(2)
  by (subst Upload_loop.simps) (simp add: maxRetries_def Let_def split: option.splits)

lemma Upload_loop_3:
  assumes "os_Open w filePath s = Inr content"
  shows "Upload_loop w c filePath key fileSize contentType 3 lastErr s =
     (case put_result w 3 of
        None \<Rightarrow> (emit (PutObject (bucket c) key content fileSize contentType) s, Inr ())
      | Some err \<Rightarrow>
          Upload_loop w c filePath key fileSize contentType 4 (Some err)
            (emit (PutObject (bucket c) key content fileSize contentType) s))"
  using assms
  by (subst Upload_loop.simps) (simp add: maxRetries_def Let_def split: option.splits)

lemmas Upload_unfold = Upload_loop_1 Upload_loop_2 Upload_loop_3 Upload_loop_done

text \<open>
  Claim C4. \<open>Upload\<close> calls \<^verbatim>\<open>PutObject\<close> at most three times and stops at the first
  call that succeeds. After a failed first attempt it sleeps \<open>baseDelay * 1\<close>, after a
  failed second attempt \<open>baseDelay * 2\<close>, and after the third attempt it does not sleep.
  When all three attempts fail the error wraps the error of the third attempt under a
  message that names the three attempts. (When the file cannot be examined or opened no
  attempt is made.)
\<close>

theorem Upload_three_attempts_linear_backoff:
  "Upload w c filePath key documentCount s =
     (case os_Stat w filePath s of
        Inl err \<Rightarrow> (s, Inl (Wrap ''failed to stat file'' err))
      | Inr fileSize \<Rightarrow>
          (case os_Open w filePath s of
             Inl err \<Rightarrow> (s, Inl (Wrap ''failed to open file'' err))
           | Inr content \<Rightarrow>
               (let put = PutObject (bucket c) key content fileSize
                            (if filepath_Ext filePath = ''.json''
                             then ''application/json'' else ''application/gzip'')
                in case put_result w 1 of
                     None \<Rightarrow> (s\<lparr>trace := trace s @ [put]\<rparr>, Inr ())
                   | Some e1 \<Rightarrow>
                       (case put_result w 2 of
                          None \<Rightarrow>
                            (s\<lparr>trace := trace s @ [put, Sleep (baseDelay * 1), put]\<rparr>, Inr ())
                        | Some e2 \<Rightarrow>
                            (case put_result w 3 of
                               None \<Rightarrow>
                                 (s\<lparr>trace := trace s @ [put, Sleep (baseDelay * 1), put,
                                                        Sleep (baseDelay * 2), put]\<rparr>,
                                  Inr ())
                             | Some e3 \<Rightarrow>
                                 (s\<lparr>trace := trace s @ [put, Sleep (baseDelay * 1), put,
                                                        Sleep (baseDelay * 2), put]\<rparr>,
                                  Inl (Wrap ''failed to upload file after 3 attempts'' e3)))))))"
proof (cases "os_Stat w filePath s")
  case (Inl err)
  then show ?thesis by (simp add: Upload_def)
next
  case st: (Inr fileSize)
  show ?thesis
  proof (cases "os_Open w filePath s")
    case (Inl err)
    then show ?thesis
      using st by (simp add: Upload_def Upload_loop_open_fails del: One_nat_def)
  next
    case (Inr content)
    then show ?thesis
      using st
      by (simp add: Upload_def Upload_unfold Let_def del: One_nat_def split: option.splits)
  qed
qed

text \<open>An object store that fails twice and then accepts the object.\<close>

theorem Upload_fails_twice_then_succeeds:
  "Upload (sample_world\<lparr>put_result := (\<lambda>n. if n < 3 then Some (Err ''timeout'') else None)\<rparr>)
     sample_client ''a.gz'' ''logs/a.gz'' 2 \<lparr>files = [''a.gz'' \<mapsto> ''zz''], trace = []\<rparr> =
   (\<lparr>files = [''a.gz'' \<mapsto> ''zz''],
     trace = [PutObject ''backups'' ''logs/a.gz'' ''zz'' 2 ''application/gzip'',
              Sleep 2000000000,
              PutObject ''backups'' ''logs/a.gz'' ''zz'' 2 ''application/gzip'',
              Sleep 4000000000,
              PutObject ''backups'' ''logs/a.gz'' ''zz'' 2 ''application/gzip'']\<rparr>,
    Inr ())"
  using Upload_three_attempts_linear_backoff
    [of "sample_world\<lparr>put_result := (\<lambda>n. if n < 3 then Some (Err ''timeout'') else None)\<rparr>"
        sample_client "''a.gz''" "''logs/a.gz''" 2 "\<lparr>files = [''a.gz'' \<mapsto> ''zz''], trace = []\<rparr>"]
  by (simp add: sample_world_def sample_client_def os_Stat_def os_Open_def filepath_Ext_def
      baseDelay_def Second_def Millisecond_def Let_def numeral_2_eq_2)

subsection \<open>One period\<close>

lemma downloadPeriod_result_any_state:
  "snd (downloadPeriod w job d sh eh n s) = snd (downloadPeriod w job d sh eh n s0)"
  by (simp add: downloadPeriod_def getCount_def searchAndSave_def os_Create_def Let_def
      split: prod.splits sum.splits option.splits)

lemma downloadPeriod_outcome:
  "snd (downloadPeriod w job d (i * IntervalHours job)
          (i * IntervalHours job + IntervalHours job) (i + 1) s) = period_outcome w job d i"
  unfolding period_outcome_def by (rule downloadPeriod_result_any_state)

lemma downloadPeriod_trace:
  "\<exists>es. trace (fst (downloadPeriod w job d sh eh n s)) = trace s @ es
        \<and> probed es = [period_bounds d sh eh] \<and> uploads es = []"
  by (auto simp add: downloadPeriod_def getCount_def searchAndSave_def os_Create_def Let_def
      append_file_def
      split: prod.splits sum.splits option.splits)

lemma downloadPeriod_files:
  assumes "files (fst (downloadPeriod w job d sh eh n s)) f \<noteq> files s f"
  shows "f = period_filename d (IndexName job) n
         \<and> (snd (downloadPeriod w job d sh eh n s) = Inr f \<or> fault w (OpEncode f) \<noteq> None)"
  using assms
  by (auto simp add: downloadPeriod_def getCount_def searchAndSave_def os_Create_def Let_def
      append_file_def
      split: prod.splits sum.splits option.splits if_splits)

subsection \<open>The loop over the periods\<close>

lemma Backup_loop_end: "\<not> i < pc \<Longrightarrow> Backup_loop w job d pc i af s = (af, s)"
  by (subst Backup_loop.simps) simp

lemma Backup_loop_files_list:
  "fst (Backup_loop w job d pc i af s) =
     af @ concat (map (\<lambda>j. kept_file (period_outcome w job d j)) [i..pc - 1])"
proof (induction "nat (pc - i)" arbitrary: i af s)
  case 0
  then show ?case by (simp add: Backup_loop_end)
next
  case (Suc n)
  then have lt: "i < pc" and n: "n = nat (pc - (i + 1))" by auto
  have up: "[i..pc - 1] = i # [i + 1..pc - 1]"
    using lt by (simp add: upto_rec1)
  obtain s1 r where dp: "downloadPeriod w job d (i * IntervalHours job)
          (i * IntervalHours job + IntervalHours job) (i + 1) s = (s1, r)"
    by (cases "downloadPeriod w job d (i * IntervalHours job)
          (i * IntervalHours job + IntervalHours job) (i + 1) s")
  have r: "r = period_outcome w job d i"
    using downloadPeriod_outcome [of w job d i s] dp by simp
  show ?case
    using lt dp r Suc(1) [OF n]
    by (subst Backup_loop.simps) (simp add: up Let_def kept_file_def split: sum.splits)
qed

lemma probed_append [simp]: "probed (xs @ ys) = probed xs @ probed ys"
  by (induction xs rule: probed.induct) simp_all

lemma uploads_append [simp]: "uploads (xs @ ys) = uploads xs @ uploads ys"
  by (induction xs rule: uploads.induct) simp_all

lemma downloadPeriod_probed:
  "probed (trace (fst (downloadPeriod w job d sh eh n s))) = probed (trace s) @ [period_bounds d sh eh]"
  using downloadPeriod_trace [of w job d sh eh n s] by auto

lemma downloadPeriod_uploads:
  "uploads (trace (fst (downloadPeriod w job d sh eh n s))) = uploads (trace s)"
  using downloadPeriod_trace [of w job d sh eh n s] by auto

lemma Backup_loop_trace:
  "probed (trace (snd (Backup_loop w job d pc i af s))) =
     probed (trace s) @ map (\<lambda>j. period_bounds d (j * IntervalHours job)
                                    (j * IntervalHours job + IntervalHours job)) [i..pc - 1]
   \<and> uploads (trace (snd (Backup_loop w job d pc i af s))) = uploads (trace s)"
proof (induction "nat (pc - i)" arbitrary: i af s)
  case 0
  then show ?case by (simp add: Backup_loop_end)
next
  case (Suc n)
  then have lt: "i < pc" and n: "n = nat (pc - (i + 1))" by auto
  have up: "[i..pc - 1] = i # [i + 1..pc - 1]"
    using lt by (simp add: upto_rec1)
  let ?sh = "i * IntervalHours job"
  let ?eh = "i * IntervalHours job + IntervalHours job"
  obtain s1 r where dp: "downloadPeriod w job d ?sh ?eh (i + 1) s = (s1, r)"
    by (cases "downloadPeriod w job d ?sh ?eh (i + 1) s")
  have s1: "probed (trace s1) = probed (trace s) @ [period_bounds d ?sh ?eh]"
      "uploads (trace s1) = uploads (trace s)"
    using downloadPeriod_probed [of w job d ?sh ?eh "i + 1" s]
      downloadPeriod_uploads [of w job d ?sh ?eh "i + 1" s] dp by simp_all
  define s2 where "s2 = (case r of Inl err \<Rightarrow> s1
      | Inr filename \<Rightarrow> if i < pc - 1 \<and> RequestInterval job > 0
           then emit (Sleep (wrap64 (wrap64 (RequestInterval job) * Second))) s1 else s1)"
  define af2 where "af2 = (case r of Inl err \<Rightarrow> af
      | Inr filename \<Rightarrow> if filename \<noteq> [] then af @ [filename] else af)"
  have step: "Backup_loop w job d pc i af s = Backup_loop w job d pc (i + 1) af2 s2"
    using lt dp by (subst Backup_loop.simps) (simp add: Let_def s2_def af2_def split: sum.splits)
  have s2: "probed (trace s2) = probed (trace s1)" "uploads (trace s2) = uploads (trace s1)"
    by (cases r; simp add: s2_def)+
  show ?case
    unfolding step up using Suc(1) [OF n, of af2 s2] s1 s2 by simp
qed

lemma Backup_loop_files:
  assumes "files (snd (Backup_loop w job d pc i af s)) f \<noteq> files s f"
  shows "\<exists>j. i \<le> j \<and> j < pc \<and> f = period_filename d (IndexName job) (j + 1)
            \<and> (period_outcome w job d j = Inr f \<or> fault w (OpEncode f) \<noteq> None)"
  using assms
proof (induction "nat (pc - i)" arbitrary: i af s)
  case 0
  then show ?case by (simp add: Backup_loop_end)
next
  case (Suc n)
  then have lt: "i < pc" and n: "n = nat (pc - (i + 1))" by auto
  let ?sh = "i * IntervalHours job"
  let ?eh = "i * IntervalHours job + IntervalHours job"
  obtain s1 r where dp: "downloadPeriod w job d ?sh ?eh (i + 1) s = (s1, r)"
    by (cases "downloadPeriod w job d ?sh ?eh (i + 1) s")
  have r: "r = period_outcome w job d i"
    using downloadPeriod_outcome [of w job d i s] dp by simp
  define s2 where "s2 = (case r of Inl err \<Rightarrow> s1
      | Inr filename \<Rightarrow> if i < pc - 1 \<and> RequestInterval job > 0
           then emit (Sleep (wrap64 (wrap64 (RequestInterval job) * Second))) s1 else s1)"
  define af2 where "af2 = (case r of Inl err \<Rightarrow> af
      | Inr filename \<Rightarrow> if filename \<noteq> [] then af @ [filename] else af)"
  have step: "Backup_loop w job d pc i af s = Backup_loop w job d pc (i + 1) af2 s2"
    using lt dp by (subst Backup_loop.simps) (simp add: Let_def s2_def af2_def split: sum.splits)
  have f2: "files s2 = files s1"
    by (cases r) (simp_all add: s2_def)
  show ?case
  proof (cases "files s1 f = files s f")
    case True
    then have "files (snd (Backup_loop w job d pc (i + 1) af2 s2)) f \<noteq> files s2 f"
      using Suc.prems step f2 by simp
    from Suc(1) [OF n this] obtain j where j: "i + 1 \<le> j" "j < pc"
        "f = period_filename d (IndexName job) (j + 1)"
        "period_outcome w job d j = Inr f \<or> fault w (OpEncode f) \<noteq> None"
      by blast
    then have "i \<le> j" by simp
    with j show ?thesis by blast
  next
    case False
    then show ?thesis
      using downloadPeriod_files [of w job d ?sh ?eh "i + 1" s f] dp r lt by auto
  qed
qed

subsection \<open>Merging\<close>

lemma files_append_file:
  "files (append_file name bytes s) =
     (files s)(name \<mapsto> (case files s name of None \<Rightarrow> [] | Some old \<Rightarrow> old) @ bytes)"
  by (simp add: append_file_def)

lemma trace_append_file [simp]: "trace (append_file name bytes s) = trace s"
  by (simp add: append_file_def)

lemma merge_loop_result:
  assumes "merge_loop w m fl tot s = (s', Inr t)" and "m \<notin> set fl" and "files s m = Some acc"
  shows "\<exists>contents counts.
           map (files s) fl = map Some contents
         \<and> map (decode_hits w) contents = map Inr counts
         \<and> files s' = (files s)(m \<mapsto> acc @ concat contents)
         \<and> t = tot + int (sum_list counts)
         \<and> trace s' = trace s"
  using assms
proof (induction fl arbitrary: tot s acc)
  case Nil
  then show ?case by auto
next
  case (Cons f rest)
  from Cons.prems(1) obtain c n where c: "files s f = Some c" and n: "decode_hits w c = Inr n"
    and rec: "merge_loop w m rest (tot + int n) (append_file m c s) = (s', Inr t)"
    by (auto simp add: os_Open_def split: option.splits sum.splits)
  let ?s2 = "append_file m c s"
  have m2: "files ?s2 m = Some (acc @ c)"
    using Cons.prems(3) by (simp add: files_append_file)
  have "m \<notin> set rest" using Cons.prems(2) by simp
  from Cons.IH [OF rec this m2] obtain contents counts where
    ih: "map (files ?s2) rest = map Some contents"
      "map (decode_hits w) contents = map Inr counts"
      "files s' = (files ?s2)(m \<mapsto> (acc @ c) @ concat contents)"
      "t = tot + int n + int (sum_list counts)"
      "trace s' = trace ?s2"
    by blast
  have same: "map (files ?s2) rest = map (files s) rest"
    using Cons.prems(2) by (auto simp add: files_append_file)
  have "map (files s) (f # rest) = map Some (c # contents)"
    using c ih(1) same by simp
  moreover have "map (decode_hits w) (c # contents) = map Inr (n # counts)"
    using n ih(2) by simp
  moreover have "files s' = (files s)(m \<mapsto> acc @ concat (c # contents))"
    using ih(3) Cons.prems(3) by (simp add: files_append_file)
  moreover have "t = tot + int (sum_list (n # counts))"
    using ih(4) by simp
  moreover have "trace s' = trace s"
    using ih(5) by simp
  ultimately show ?case by blast
qed

lemma mergeFiles_result:
  assumes "snd (mergeFiles w fl indexName d s) = Inr (mergedFile, totalCount)"
    and "merged_filename d indexName \<notin> set fl"
  shows "\<exists>contents counts.
           map (files s) fl = map Some contents
         \<and> map (decode_hits w) contents = map Inr counts
         \<and> mergedFile = merged_filename d indexName
         \<and> files (fst (mergeFiles w fl indexName d s)) = (files s)(mergedFile \<mapsto> concat contents)
         \<and> totalCount = int (sum_list counts)
         \<and> trace (fst (mergeFiles w fl indexName d s)) = trace s"
proof -
  let ?m = "merged_filename d indexName"
  let ?s1 = "s\<lparr>files := (files s)(?m \<mapsto> [])\<rparr>"
  from assms(1) have cr: "fault w (OpCreate ?m) = None"
    by (auto simp add: mergeFiles_def os_Create_def Let_def split: option.splits)
  obtain s2 r where ml: "merge_loop w ?m fl 0 ?s1 = (s2, r)"
    by (cases "merge_loop w ?m fl 0 ?s1")
  have mf: "mergeFiles w fl indexName d s =
      (case r of Inl err \<Rightarrow> (s2, Inl err) | Inr totalCount \<Rightarrow> (s2, Inr (?m, totalCount)))"
    using cr ml by (simp add: mergeFiles_def os_Create_def Let_def)
  from assms(1) mf have r: "r = Inr totalCount" and m: "mergedFile = ?m"
    by (auto split: sum.splits)
  have fst: "fst (mergeFiles w fl indexName d s) = s2"
    using mf r by simp
  have "files ?s1 ?m = Some []" by simp
  from merge_loop_result [OF ml [unfolded r] assms(2) this]
  obtain contents counts where
    res: "map (files ?s1) fl = map Some contents"
      "map (decode_hits w) contents = map Inr counts"
      "files s2 = (files ?s1)(?m \<mapsto> [] @ concat contents)"
      "totalCount = 0 + int (sum_list counts)"
      "trace s2 = trace ?s1"
    by blast
  have "map (files ?s1) fl = map (files s) fl"
    using assms(2) by auto
  with res show ?thesis
    unfolding fst m by (intro exI [of _ contents] exI [of _ counts]) simp
qed

lemma merge_loop_trace: "trace (fst (merge_loop w m fl tot s)) = trace s"
  by (induction fl arbitrary: tot s) (auto split: sum.splits option.splits)

lemma mergeFiles_trace [simp]: "trace (fst (mergeFiles w fl indexName d s)) = trace s"
proof -
  have "trace (fst (merge_loop w m fl 0 (s\<lparr>files := fs\<rparr>))) = trace s" for m fs
    using merge_loop_trace [of w m fl 0 "s\<lparr>files := fs\<rparr>"] by simp
  then have "merge_loop w m fl 0 (s\<lparr>files := fs\<rparr>) = (s2, r) \<Longrightarrow> trace s2 = trace s" for m fs s2 r
    by (metis fst_conv)
  then show ?thesis
    by (auto simp add: mergeFiles_def os_Create_def Let_def split: option.splits prod.splits sum.splits)
qed

lemma compressFile_trace [simp]: "trace (fst (compressFile w filename s)) = trace s"
  by (simp add: compressFile_def os_Create_def Let_def split: option.splits prod.splits sum.splits)

lemma trace_os_Remove [simp]: "trace (os_Remove f s) = trace s"
  by (simp add: os_Remove_def)

lemma trace_fold_os_Remove [simp]: "trace (fold os_Remove fl s) = trace s"
  by (induction fl arbitrary: s) simp_all

lemma cleanup_trace [simp]: "trace (cleanup tempFiles mergedFile compressedFile s) = trace s"
  by (simp add: cleanup_def)

lemma Upload_loop_frame:
  "probed (trace (fst (Upload_loop w c filePath key fileSize contentType attempt lastErr s)))
     = probed (trace s)
   \<and> files (fst (Upload_loop w c filePath key fileSize contentType attempt lastErr s)) = files s"
proof (induction w c filePath key fileSize contentType attempt lastErr s rule: Upload_loop.induct)
  case (1 w c filePath key fileSize contentType attempt lastErr s)
  show ?case
  proof (cases "attempt \<le> maxRetries")
    case False
    then show ?thesis by (subst (1 2) Upload_loop.simps) simp
  next
    case le: True
    show ?thesis
    proof (cases "os_Open w filePath s")
      case (Inl err)
      then show ?thesis using le by (subst (1 2) Upload_loop.simps) simp
    next
      case (Inr content)
      show ?thesis
      proof (cases "put_result w attempt")
        case None
        then show ?thesis using le Inr by (subst (1 2) Upload_loop.simps) (simp add: Let_def)
      next
        case (Some err)
        show ?thesis
          using le Inr Some "1.IH" [OF le Inr refl Some refl]
          by (subst (1 2) Upload_loop.simps) (simp add: Let_def)
      qed
    qed
  qed
qed

lemma Upload_probed [simp]:
  "probed (trace (fst (Upload w c filePath key documentCount s))) = probed (trace s)"
  by (simp add: Upload_def Upload_loop_frame Let_def split: sum.splits)

lemma Upload_files [simp]:
  "files (fst (Upload w c filePath key documentCount s)) = files s"
  by (simp add: Upload_def Upload_loop_frame Let_def split: sum.splits)

subsection \<open>A whole run\<close>

lemma mergeFiles_traceD: "mergeFiles w fl indexName d s = (s2, r) \<Longrightarrow> trace s2 = trace s"
  using mergeFiles_trace [of w fl indexName d s] by simp

lemma compressFile_traceD: "compressFile w filename s = (s2, r) \<Longrightarrow> trace s2 = trace s"
  using compressFile_trace [of w filename s] by simp

lemma Upload_probedD:
  "Upload w c filePath key documentCount s = (s2, r) \<Longrightarrow> probed (trace s2) = probed (trace s)"
  using Upload_probed [of w c filePath key documentCount s] by simp

lemma Backup_probed:
  assumes "IntervalHours job \<noteq> 0"
  shows "probed (trace (fst (Backup w c job s))) =
     probed (trace s) @
     map (\<lambda>j. period_bounds (AddDate_minus_one_day (now w)) (j * IntervalHours job)
                  (j * IntervalHours job + IntervalHours job))
       [0..go_div 24 (IntervalHours job) - 1]"
proof -
  let ?d = "AddDate_minus_one_day (now w)"
  let ?pc = "go_div 24 (IntervalHours job)"
  obtain af s1 where loop: "Backup_loop w job ?d ?pc 0 [] s = (af, s1)"
    by (cases "Backup_loop w job ?d ?pc 0 [] s")
  have s1: "probed (trace s1) = probed (trace s) @
     map (\<lambda>j. period_bounds ?d (j * IntervalHours job)
                  (j * IntervalHours job + IntervalHours job)) [0..?pc - 1]"
    using Backup_loop_trace [of w job ?d ?pc 0 "[]" s] loop by simp
  have "probed (trace (fst (Backup w c job s))) = probed (trace s1)"
    using assms loop
    by (auto simp add: Backup_def Let_def
        dest!: mergeFiles_traceD compressFile_traceD Upload_probedD
        split: prod.splits sum.splits)
  with s1 show ?thesis by simp
qed

lemma periods_of_run_eq:
  assumes "IntervalHours job \<noteq> 0"
  shows "periods_of_run w c job disk =
     map (\<lambda>j. period_bounds (AddDate_minus_one_day (now w)) (j * IntervalHours job)
                  (j * IntervalHours job + IntervalHours job))
       [0..go_div 24 (IntervalHours job) - 1]"
  using Backup_probed [OF assms, of w c "\<lparr>files = disk, trace = []\<rparr>"]
  by (simp add: periods_of_run_def)

subsection \<open>The planned windows\<close>

lemma go_div_pos: "0 < k \<Longrightarrow> go_div 24 k = 24 div k"
  by (simp add: go_div_def)

lemma cover_ex:
  fixes W pc ms :: int
  assumes "0 < W" "pc * W = D" "0 \<le> ms" "ms < D"
  shows "0 \<le> ms div W \<and> ms div W < pc \<and> (ms div W) * W \<le> ms \<and> ms < (ms div W + 1) * W"
proof -
  define q r where "q = ms div W" and "r = ms mod W"
  have eq: "ms = q * W + r" by (simp add: q_def r_def)
  have m: "0 \<le> r" "r < W" using assms(1) by (simp_all add: r_def)
  have 1: "0 \<le> ms div W" using assms(1,3) by (simp add: pos_imp_zdiv_nonneg_iff)
  have 2: "(ms div W) * W \<le> ms" using eq m unfolding q_def [symmetric] by simp
  have 3: "ms < (ms div W + 1) * W"
    using eq m unfolding q_def [symmetric] by (simp add: distrib_right)
  have 4: "ms div W < pc"
  proof (rule ccontr)
    assume "\<not> ms div W < pc"
    then have "pc \<le> ms div W" by simp
    then have "pc * W \<le> (ms div W) * W" using assms(1) by (simp add: mult_right_mono)
    with 2 assms(2,4) show False by simp
  qed
  from 1 2 3 4 show ?thesis by simp
qed

lemma cover_uniq:
  fixes W j ms :: int
  assumes "0 < W" "j * W \<le> ms" "ms < (j + 1) * W"
  shows "ms div W = j"
proof (rule int_div_pos_eq [where r = "ms - j * W"])
  show "ms = W * j + (ms - j * W)" by (simp add: mult.commute)
  show "0 \<le> ms - j * W" using assms(2) by simp
  show "ms - j * W < W" using assms(3) by (simp add: algebra_simps)
qed

lemma period_bounds_ms:
  assumes "0 < k" and "pc * k = 24" and "0 \<le> j" and "j < pc"
  shows "period_bounds d (j * k) (j * k + k) =
     (\<lparr>on_date = d, ns_of_day = (j * (k * 3600000)) * Millisecond\<rparr>,
      \<lparr>on_date = d, ns_of_day = ((j + 1) * (k * 3600000) - 1) * Millisecond\<rparr>)"
proof -
  have "(j + 1) * k \<le> pc * k"
    using assms(1,4) by (intro mult_right_mono) simp_all
  then have le: "j * k + k \<le> 24"
    using assms(2) by (simp add: distrib_right)
  show ?thesis
  proof (cases "j * k + k \<ge> 24")
    case True
    with le have "j * k + k = 24" by simp
    then have "(j + 1) * (k * 3600000) = 24 * 3600000"
      by (simp add: algebra_simps)
    then show ?thesis
      using True
      by (simp add: period_bounds_def time_Date_def Second_def Millisecond_def)
  next
    case False
    then show ?thesis
      by (simp add: period_bounds_def time_Date_def time_Add_def Second_def Millisecond_def
          algebra_simps)
  qed
qed

lemma planned_windows_nth:
  fixes k pc :: int and d :: date
  assumes k: "0 < k" and pc: "pc * k = 24"
  defines "ws \<equiv> map (\<lambda>j. period_bounds d (j * k) (j * k + k)) [0..pc - 1]"
  shows "length ws = nat pc"
    and "n < nat pc \<Longrightarrow> ws ! n =
           (\<lparr>on_date = d, ns_of_day = (int n * (k * 3600000)) * Millisecond\<rparr>,
            \<lparr>on_date = d, ns_of_day = ((int n + 1) * (k * 3600000) - 1) * Millisecond\<rparr>)"
proof -
  show "length ws = nat pc" by (simp add: ws_def)
  assume n: "n < nat pc"
  then have "[0..pc - 1] ! n = int n" by (simp add: nth_upto)
  then have "ws ! n = period_bounds d (int n * k) (int n * k + k)"
    using n by (simp add: ws_def)
  also have "\<dots> = (\<lparr>on_date = d, ns_of_day = (int n * (k * 3600000)) * Millisecond\<rparr>,
            \<lparr>on_date = d, ns_of_day = ((int n + 1) * (k * 3600000) - 1) * Millisecond\<rparr>)"
    using n by (intro period_bounds_ms [OF k pc]) simp_all
  finally show "ws ! n =
           (\<lparr>on_date = d, ns_of_day = (int n * (k * 3600000)) * Millisecond\<rparr>,
            \<lparr>on_date = d, ns_of_day = ((int n + 1) * (k * 3600000) - 1) * Millisecond\<rparr>)" .
qed

lemma planned_windows_partition:
  fixes k pc :: int and d :: date
  assumes k: "0 < k" and pc: "pc * k = 24"
  defines "ws \<equiv> map (\<lambda>j. period_bounds d (j * k) (j * k + k)) [0..pc - 1]"
  shows "length ws = nat pc
    \<and> (\<forall>n. Suc n < length ws \<longrightarrow>
          ns_of_day (snd (ws ! n)) + Millisecond = ns_of_day (fst (ws ! Suc n)))
    \<and> ns_of_day (fst (hd ws)) = 0
    \<and> ns_of_day (snd (last ws)) = end_of_day
    \<and> (\<forall>p \<in> set ws. on_date (fst p) = d \<and> on_date (snd p) = d
          \<and> 0 \<le> ns_of_day (fst p) \<and> ns_of_day (fst p) \<le> ns_of_day (snd p)
          \<and> ns_of_day (snd p) \<le> end_of_day)
    \<and> (\<forall>ms. 0 \<le> ms \<and> ms \<le> 86399999 \<longrightarrow>
          (\<exists>!n. n < length ws \<and> ns_of_day (fst (ws ! n)) \<le> ms * Millisecond
                 \<and> ms * Millisecond \<le> ns_of_day (snd (ws ! n))))"
proof -
  define W where "W = k * 3600000"
  have W: "0 < W" using k by (simp add: W_def)
  have D: "pc * W = 86400000" using pc by (simp add: W_def mult.assoc [symmetric])
  have pc0: "0 < pc"
    using k pc by (metis mult_less_cancel_right_disj mult_zero_left not_less_iff_gr_or_eq
        zero_less_numeral less_asym)
  have M: "0 < Millisecond" by (simp add: Millisecond_def)
  have len: "length ws = nat pc"
    unfolding ws_def by (rule planned_windows_nth(1) [OF k pc])
  have nth: "ws ! n = (\<lparr>on_date = d, ns_of_day = (int n * W) * Millisecond\<rparr>,
                       \<lparr>on_date = d, ns_of_day = ((int n + 1) * W - 1) * Millisecond\<rparr>)"
    if "n < nat pc" for n
    unfolding ws_def W_def using that by (rule planned_windows_nth(2) [OF k pc])
  have upper: "(int n + 1) * W \<le> 86400000" if "n < nat pc" for n
  proof -
    have "(int n + 1) * W \<le> pc * W"
      using that W by (intro mult_right_mono) simp_all
    with D show ?thesis by simp
  qed
  have adj: "\<forall>n. Suc n < length ws \<longrightarrow>
          ns_of_day (snd (ws ! n)) + Millisecond = ns_of_day (fst (ws ! Suc n))"
    by (simp add: len nth algebra_simps)
  have ne: "ws \<noteq> []" using len pc0 by auto
  have first: "ns_of_day (fst (hd ws)) = 0"
    using ne pc0 nth [of 0] by (simp add: hd_conv_nth)
  have "ns_of_day (snd (last ws)) = ((int (nat pc - 1) + 1) * W - 1) * Millisecond"
    using ne pc0 nth [of "nat pc - 1"] len by (simp add: last_conv_nth)
  also have "int (nat pc - 1) + 1 = pc" using pc0 by simp
  finally have last: "ns_of_day (snd (last ws)) = end_of_day"
    using D by (simp add: end_of_day_def)
  have within: "\<forall>p \<in> set ws. on_date (fst p) = d \<and> on_date (snd p) = d
          \<and> 0 \<le> ns_of_day (fst p) \<and> ns_of_day (fst p) \<le> ns_of_day (snd p)
          \<and> ns_of_day (snd p) \<le> end_of_day"
  proof
    fix p assume "p \<in> set ws"
    then obtain n where n: "n < nat pc" and p: "p = ws ! n"
      using len by (auto simp add: in_set_conv_nth)
    have a: "0 \<le> int n * W" using W by simp
    have b: "int n * W \<le> (int n + 1) * W - 1" using W by (simp add: distrib_right)
    have c: "(int n + 1) * W - 1 \<le> 86399999" using upper [OF n] by simp
    show "on_date (fst p) = d \<and> on_date (snd p) = d
          \<and> 0 \<le> ns_of_day (fst p) \<and> ns_of_day (fst p) \<le> ns_of_day (snd p)
          \<and> ns_of_day (snd p) \<le> end_of_day"
      using a b c M unfolding p nth [OF n] end_of_day_def by simp
  qed
  have cover: "\<forall>ms. 0 \<le> ms \<and> ms \<le> 86399999 \<longrightarrow>
          (\<exists>!n. n < length ws \<and> ns_of_day (fst (ws ! n)) \<le> ms * Millisecond
                 \<and> ms * Millisecond \<le> ns_of_day (snd (ws ! n)))"
  proof (intro allI impI)
    fix ms :: int assume "0 \<le> ms \<and> ms \<le> 86399999"
    then have ms: "0 \<le> ms" "ms < 86400000" by simp_all
    have inside: "(ns_of_day (fst (ws ! n)) \<le> ms * Millisecond
                 \<and> ms * Millisecond \<le> ns_of_day (snd (ws ! n)))
              \<longleftrightarrow> (int n * W \<le> ms \<and> ms < (int n + 1) * W)" if "n < nat pc" for n
      using M by (simp add: nth [OF that])
    let ?q = "ms div W"
    from cover_ex [OF W D ms]
    have q: "0 \<le> ?q" "?q < pc" "?q * W \<le> ms" "ms < (?q + 1) * W" by simp_all
    show "\<exists>!n. n < length ws \<and> ns_of_day (fst (ws ! n)) \<le> ms * Millisecond
                 \<and> ms * Millisecond \<le> ns_of_day (snd (ws ! n))"
    proof (rule ex1I [of _ "nat ?q"])
      have "nat ?q < nat pc" using q by simp
      then show "nat ?q < length ws \<and> ns_of_day (fst (ws ! nat ?q)) \<le> ms * Millisecond
                 \<and> ms * Millisecond \<le> ns_of_day (snd (ws ! nat ?q))"
        using q by (simp add: len inside)
    next
      fix n assume n: "n < length ws \<and> ns_of_day (fst (ws ! n)) \<le> ms * Millisecond
                 \<and> ms * Millisecond \<le> ns_of_day (snd (ws ! n))"
      then have "n < nat pc" by (simp add: len)
      with n have "int n * W \<le> ms" "ms < (int n + 1) * W" by (simp_all add: inside)
      from cover_uniq [OF W this] have "?q = int n" .
      then show "n = nat ?q" by simp
    qed
  qed
  from len adj first last within cover show ?thesis by blast
qed


text \<open>
  Claim C2. For an interval of 1, 2, 3, 4, 6, 8, 12 or 24 hours the run asks about exactly
  \<open>24 / interval\<close> windows of the target day. Each window but the last ends one millisecond
  before the next one starts, the first starts at 00:00:00.000 and the last ends at
  23:59:59.999; every window lies within the day, and every millisecond of the day lies in
  exactly one window.
\<close>

theorem windows_partition_the_day:
  assumes "IntervalHours job \<in> {1, 2, 3, 4, 6, 8, 12, 24}"
  shows "length (periods_of_run w c job disk) = nat (24 div IntervalHours job)
    \<and> (\<forall>n. Suc n < length (periods_of_run w c job disk) \<longrightarrow>
          ns_of_day (snd (periods_of_run w c job disk ! n)) + Millisecond
            = ns_of_day (fst (periods_of_run w c job disk ! Suc n)))
    \<and> ns_of_day (fst (hd (periods_of_run w c job disk))) = 0
    \<and> ns_of_day (snd (last (periods_of_run w c job disk))) = end_of_day
    \<and> (\<forall>p \<in> set (periods_of_run w c job disk).
          on_date (fst p) = AddDate_minus_one_day (now w)
          \<and> on_date (snd p) = AddDate_minus_one_day (now w)
          \<and> 0 \<le> ns_of_day (fst p) \<and> ns_of_day (fst p) \<le> ns_of_day (snd p)
          \<and> ns_of_day (snd p) \<le> end_of_day)
    \<and> (\<forall>ms. 0 \<le> ms \<and> ms \<le> 86399999 \<longrightarrow>
          (\<exists>!n. n < length (periods_of_run w c job disk)
                 \<and> ns_of_day (fst (periods_of_run w c job disk ! n)) \<le> ms * Millisecond
                 \<and> ms * Millisecond \<le> ns_of_day (snd (periods_of_run w c job disk ! n))))"
proof -
  have k: "0 < IntervalHours job" and pc: "(24 div IntervalHours job) * IntervalHours job = 24"
    using assms by auto
  have "IntervalHours job \<noteq> 0" using k by simp
  then have eq: "periods_of_run w c job disk =
     map (\<lambda>j. period_bounds (AddDate_minus_one_day (now w)) (j * IntervalHours job)
                  (j * IntervalHours job + IntervalHours job))
       [0..24 div IntervalHours job - 1]"
    using k by (simp add: periods_of_run_eq go_div_pos)
  show ?thesis
    unfolding eq by (rule planned_windows_partition [OF k pc])
qed

text \<open>An interval of two hours gives twelve windows, the last one ending at 23:59:59.999.\<close>

theorem windows_partition_the_day_at_two_hours:
  "IntervalHours (sample_job\<lparr>IntervalHours := 2\<rparr>) \<in> {1, 2, 3, 4, 6, 8, 12, 24}
   \<and> length (periods_of_run sample_world sample_client (sample_job\<lparr>IntervalHours := 2\<rparr>) Map.empty) = 12
   \<and> ns_of_day (snd (last (periods_of_run sample_world sample_client
                               (sample_job\<lparr>IntervalHours := 2\<rparr>) Map.empty))) = end_of_day"
  using windows_partition_the_day
    [of "sample_job\<lparr>IntervalHours := 2\<rparr>" sample_world sample_client Map.empty]
  by simp

text \<open>
  Claim C1, evaluated at an interval of five hours. The number of periods is the integer
  quotient \<open>24 / 5 = 4\<close>, not \<open>ceil (24 / 5) = 5\<close>; the fourth window ends at 19:59:59.999
  and no window starts at 20:00, so the last four hours of the day are never asked about.
\<close>

theorem five_hour_interval_stops_at_20_00:
  "periods_of_run w c (job\<lparr>IntervalHours := 5\<rparr>) disk =
   [(\<lparr>on_date = AddDate_minus_one_day (now w), ns_of_day = 0\<rparr>,
     \<lparr>on_date = AddDate_minus_one_day (now w), ns_of_day = 17999999 * Millisecond\<rparr>),
    (\<lparr>on_date = AddDate_minus_one_day (now w), ns_of_day = 18000000 * Millisecond\<rparr>,
     \<lparr>on_date = AddDate_minus_one_day (now w), ns_of_day = 35999999 * Millisecond\<rparr>),
    (\<lparr>on_date = AddDate_minus_one_day (now w), ns_of_day = 36000000 * Millisecond\<rparr>,
     \<lparr>on_date = AddDate_minus_one_day (now w), ns_of_day = 53999999 * Millisecond\<rparr>),
    (\<lparr>on_date = AddDate_minus_one_day (now w), ns_of_day = 54000000 * Millisecond\<rparr>,
     \<lparr>on_date = AddDate_minus_one_day (now w), ns_of_day = 71999999 * Millisecond\<rparr>)]
   \<and> length (periods_of_run w c (job\<lparr>IntervalHours := 5\<rparr>) disk) = 4
   \<and> ns_of_day (snd (last (periods_of_run w c (job\<lparr>IntervalHours := 5\<rparr>) disk)))
       = end_of_day - 4 * 3600 * Second"
  by (simp add: periods_of_run_eq go_div_def upto_rec1 period_bounds_def time_Date_def time_Add_def
      Second_def Millisecond_def end_of_day_def)

end
